theory Spec2Isabelle
  imports
    Main
    "HOL-Library.Char_ord"
    "HOL-Library.List_Lexorder"
    "HOL-Library.Multiset"
    "HOL-Library.Sublist"
begin

section \<open>sddl.py: translating SDDL strings\<close>

text \<open>
  A shallow embedding of \<^verbatim>\<open>sddl.py\<close> (Python 2): the module's regular expressions,
  its three lookup tables, \<^verbatim>\<open>TranslateSid\<close>, \<^verbatim>\<open>ACE.__init__\<close> and
  \<^verbatim>\<open>SDDL.__init__\<close>. Python 2 \<^verbatim>\<open>str\<close> is a byte string, which is what
  \<^typ>\<open>string\<close> is. An exception is a value \<open>Inl e\<close>. The module-level dictionary
  \<^verbatim>\<open>ACCESS\<close> is mutable shared state: the constructor of \<^verbatim>\<open>SDDL\<close> takes the
  dictionary as it stands and returns it as it leaves it.
\<close>

subsection \<open>Exceptions\<close>

text \<open>
  The three exception classes of the module, and the two built-in exceptions its
  expressions can raise: \<^verbatim>\<open>d[k]\<close> on a missing key (\<open>KeyError k\<close>) and
  \<^verbatim>\<open>.group()\<close> on the \<^verbatim>\<open>None\<close> of a failed match (\<open>AttributeError\<close>).
\<close>

datatype error =
    InvalidSddlStringError
  | InvalidSddlTypeError
  | InvalidAceStringError
  | KeyError string
  | AttributeError

subsection \<open>Regular expressions\<close>

text \<open>
  A compiled pattern is modelled by what one match attempt at one position gives: told
  whether the position is the start of the subject (for \<^verbatim>\<open>^\<close>) and given the subject from
  that position on, it returns the text of the whole match and the text
  \<^verbatim>\<open>findall\<close> reports for it (group 1 when the pattern has a group, the whole match
  otherwise).
\<close>

type_synonym matcher = "bool \<Rightarrow> string \<Rightarrow> (string \<times> string) option"

text \<open>
  \<^verbatim>\<open>[class]+\<close> followed by the rest \<open>k\<close> of the pattern: greedy, at least one character,
  giving characters back one at a time until the rest of the pattern accepts what follows.
\<close>

fun backtrack :: "(string \<Rightarrow> bool) \<Rightarrow> string \<Rightarrow> nat \<Rightarrow> nat option" where
  "backtrack k s 0 = None"
| "backtrack k s (Suc n) = (if k (drop (Suc n) s) then Some (Suc n) else backtrack k s n)"

definition plus_greedy :: "(char \<Rightarrow> bool) \<Rightarrow> (string \<Rightarrow> bool) \<Rightarrow> string \<Rightarrow> string option" where
  "plus_greedy cls k s = map_option (\<lambda>n. take n s) (backtrack k s (length (takeWhile cls s)))"

text \<open>The character classes \<^verbatim>\<open>[^:()]\<close>, \<^verbatim>\<open>[^\(\)]\<close>, \<^verbatim>\<open>.\<close> (no DOTALL flag: any
  character but a newline) and \<^verbatim>\<open>\w\<close> (a byte-string pattern with no LOCALE or UNICODE
  flag: letters, digits, underscore).\<close>

definition not_colon_paren :: "char \<Rightarrow> bool" where
  "not_colon_paren c = (c \<notin> set '':()'')"

definition not_paren :: "char \<Rightarrow> bool" where
  "not_paren c = (c \<notin> set ''()'')"

definition dot :: "char \<Rightarrow> bool" where
  "dot c = (c \<noteq> CHR 0x0A)"

definition word_char :: "char \<Rightarrow> bool" where
  "word_char c =
     (c \<in> set ''abcdefghijklmnopqrstuvwxyzABCDEFGHIJKLMNOPQRSTUVWXYZ0123456789_'')"

text \<open>The lookahead \<^verbatim>\<open>(?=[cs]:)\<close>, the anchor \<^verbatim>\<open>$\<close> (no MULTILINE flag: the end of the
  subject, or just before a newline that ends it) and a literal character.\<close>

definition lookahead :: "string \<Rightarrow> string \<Rightarrow> bool" where
  "lookahead cs r = (case r of c # d # _ \<Rightarrow> c \<in> set cs \<and> d = CHR '':'' | _ \<Rightarrow> False)"

definition dollar :: "string \<Rightarrow> bool" where
  "dollar r = (r = [] \<or> r = [CHR 0x0A])"

definition lit :: "char \<Rightarrow> string \<Rightarrow> bool" where
  "lit c r = (case r of [] \<Rightarrow> False | d # _ \<Rightarrow> d = c)"

text \<open>\<^verbatim>\<open>re_perms = re.compile('\(([^\(\)]+)\)')\<close>\<close>

definition re_perms :: matcher where
  "re_perms bos s =
     (case s of
        [] \<Rightarrow> None
      | c # r \<Rightarrow>
          if c = CHR ''('' then
            map_option (\<lambda>g. (''('' @ g @ '')'', g)) (plus_greedy not_paren (lit CHR '')'') r)
          else None)"

text \<open>\<^verbatim>\<open>re_type = re.compile('^[DOGS]')\<close>\<close>

definition re_type :: matcher where
  "re_type bos s =
     (if \<not> bos then None
      else case s of
        [] \<Rightarrow> None
      | c # _ \<Rightarrow> if c \<in> set ''DOGS'' then Some ([c], [c]) else None)"

text \<open>\<^verbatim>\<open>re_owner = re.compile('^O:[^:()]+(?=[DGS]:)')\<close>\<close>

definition re_owner :: matcher where
  "re_owner bos s =
     (if \<not> bos then None
      else case s of
        c # d # r \<Rightarrow>
          if c = CHR ''O'' \<and> d = CHR '':'' then
            map_option (\<lambda>g. (c # d # g, c # d # g))
              (plus_greedy not_colon_paren (lookahead ''DGS'') r)
          else None
      | _ \<Rightarrow> None)"

text \<open>\<^verbatim>\<open>re_group = re.compile('G:[^:()]+(?=[DOS]:)')\<close>\<close>

definition re_group :: matcher where
  "re_group bos s =
     (case s of
        c # d # r \<Rightarrow>
          if c = CHR ''G'' \<and> d = CHR '':'' then
            map_option (\<lambda>g. (c # d # g, c # d # g))
              (plus_greedy not_colon_paren (lookahead ''DOS'') r)
          else None
      | _ \<Rightarrow> None)"

text \<open>\<^verbatim>\<open>re_acl = re.compile('[DS]:.+$')\<close>\<close>

definition re_acl :: matcher where
  "re_acl bos s =
     (case s of
        c # d # r \<Rightarrow>
          if c \<in> set ''DS'' \<and> d = CHR '':'' then
            map_option (\<lambda>g. (c # d # g, c # d # g)) (plus_greedy dot dollar r)
          else None
      | _ \<Rightarrow> None)"

text \<open>\<^verbatim>\<open>re_const = re.compile('(\w\w)')\<close>\<close>

definition re_const :: matcher where
  "re_const bos s =
     (case s of
        a # b # _ \<Rightarrow> if word_char a \<and> word_char b then Some ([a, b], [a, b]) else None
      | _ \<Rightarrow> None)"

text \<open>\<^verbatim>\<open>re_non_acl = re.compile('[^:()]+$')\<close>\<close>

definition re_non_acl :: matcher where
  "re_non_acl bos s = map_option (\<lambda>g. (g, g)) (plus_greedy not_colon_paren dollar s)"

text \<open>
  \<^verbatim>\<open>re.match\<close> tries the start of the subject only; \<^verbatim>\<open>re.search\<close> tries every
  position from the left and returns the first match; \<^verbatim>\<open>re.findall\<close> collects the matches
  from the left, each search starting where the last match ended (one character further
  after an empty match). \<^verbatim>\<open>m.group()\<close> is the text of the match, and raises
  \<^verbatim>\<open>AttributeError\<close> when \<^verbatim>\<open>m\<close> is \<^verbatim>\<open>None\<close>.
\<close>

definition re_match :: "matcher \<Rightarrow> string \<Rightarrow> string option" where
  "re_match m s = map_option fst (m True s)"

fun search_from :: "matcher \<Rightarrow> bool \<Rightarrow> string \<Rightarrow> string option" where
  "search_from m bos [] = map_option fst (m bos [])"
| "search_from m bos (c # cs) =
     (case m bos (c # cs) of
        Some r \<Rightarrow> Some (fst r)
      | None \<Rightarrow> search_from m False cs)"

definition re_search :: "matcher \<Rightarrow> string \<Rightarrow> string option" where
  "re_search m s = search_from m True s"

function findall_from :: "matcher \<Rightarrow> bool \<Rightarrow> string \<Rightarrow> string list" where
  "findall_from m bos [] = (case m bos [] of Some r \<Rightarrow> [snd r] | None \<Rightarrow> [])"
| "findall_from m bos (c # cs) =
     (case m bos (c # cs) of
        Some r \<Rightarrow> snd r # findall_from m False (drop (max 1 (length (fst r))) (c # cs))
      | None \<Rightarrow> findall_from m False cs)"
  by pat_completeness auto
termination
  by (relation "measure (\<lambda>(m, bos, s). length s)") auto

definition re_findall :: "matcher \<Rightarrow> string \<Rightarrow> string list" where
  "re_findall m s = findall_from m True s"

definition match_group :: "string option \<Rightarrow> error + string" where
  "match_group mo = (case mo of None \<Rightarrow> Inl AttributeError | Some g \<Rightarrow> Inr g)"

subsection \<open>The lookup tables\<close>

text \<open>
  A dictionary display evaluates its items from left to right and a later item replaces
  an earlier one with the same key (\<^verbatim>\<open>'FA'\<close> stands twice in \<^verbatim>\<open>ACCESS\<close>), while
  \<^const>\<open>map_of\<close> returns the first pair of a key: hence the \<^const>\<open>rev\<close>.
\<close>

type_synonym dict = "string \<rightharpoonup> string"

definition dict_display :: "(string \<times> string) list \<Rightarrow> dict" where
  "dict_display items = map_of (rev items)"

definition SDDL_TYPE_items :: "(string \<times> string) list" where
  "SDDL_TYPE_items =
     [(''O'', ''Owner''),
      (''G'', ''Group''),
      (''D'', ''DACL''),
      (''S'', ''SACL'')]"

definition SDDL_TYPE :: dict where
  "SDDL_TYPE = dict_display SDDL_TYPE_items"

definition ACCESS_items :: "(string \<times> string) list" where
  "ACCESS_items =
     [(''A'', ''ACCESS_ALLOWED''),
      (''D'', ''ACCESS_DENIED''),
      (''OA'', ''ACCESS_ALLOWED_OBJECT''),
      (''OD'', ''ACCESS_DENIED_OBJECT''),
      (''AU'', ''SYSTEM_AUDIT''),
      (''AL'', ''SYSTEM_ALARM''),
      (''OU'', ''SYSTEM_AUDIT_OBJECT''),
      (''OL'', ''SYSTEM_ALARM_OBJECT''),
      (''CI'', ''CONTAINER_INHERIT''),
      (''OI'', ''OBJECT_INHERIT''),
      (''NP'', ''NO_PROPAGATE_INHERIT''),
      (''IO'', ''INHERIT_ONLY''),
      (''ID'', ''INHERITED''),
      (''SA'', ''SUCCESSFUL_ACCESS''),
      (''FA'', ''FAILED_ACCESS''),
      (''GA'', ''GENERIC_ALL''),
      (''GR'', ''GENERIC_READ''),
      (''GW'', ''GENERIC_WRITE''),
      (''GX'', ''GENERIC_EXECUTE''),
      (''RC'', ''READ_CONTROL''),
      (''SD'', ''DELETE''),
      (''WD'', ''WRITE_DAC''),
      (''WO'', ''WRITE_OWNER''),
      (''RP'', ''DS_READ_PROP''),
      (''WP'', ''DS_WRITE_PROP''),
      (''CC'', ''DS_CREATE_CHILD''),
      (''DC'', ''DS_DELETE_CHILD''),
      (''LC'', ''DS_LIST''),
      (''SW'', ''DS_SELF''),
      (''LO'', ''DS_LIST_OBJECT''),
      (''DT'', ''DS_DELETE_TREE''),
      (''FA'', ''FILE_ALL_ACCESS''),
      (''FR'', ''FILE_GENERIC_READ''),
      (''FW'', ''FILE_GENERIC_WRITE''),
      (''FX'', ''FILE_GENERIC_EXECUTE''),
      (''KA'', ''KEY_ALL_ACCESS''),
      (''KR'', ''KEY_READ''),
      (''KW'', ''KEY_WRITE''),
      (''KE'', ''KEY_EXECUTE'')]"

definition ACCESS :: dict where
  "ACCESS = dict_display ACCESS_items"

definition TRUSTEE_items :: "(string \<times> string) list" where
  "TRUSTEE_items =
     [(''AO'', ''Account Operators''),
      (''RU'', ''Pre-Win2k Compatibility Access''),
      (''AN'', ''Anonymous''),
      (''AU'', ''Authenticated Users''),
      (''BA'', ''Administrators''),
      (''BG'', ''Guests''),
      (''BO'', ''Backup Operators''),
      (''BU'', ''Users''),
      (''CA'', ''Certificate Publishers''),
      (''CD'', ''Certificate Services DCOM Access''),
      (''CG'', ''Creator Group''),
      (''CO'', ''Creator Owner''),
      (''DA'', ''Domain Admins''),
      (''DC'', ''Domain Computers''),
      (''DD'', ''Domain Controllers''),
      (''DG'', ''Domain Guests''),
      (''DU'', ''Domain Users''),
      (''EA'', ''Enterprise Admins''),
      (''ED'', ''Enterprise Domain Controllers''),
      (''RO'', ''Enterprise Read-Only Domain Controllers''),
      (''WD'', ''Everyone''),
      (''PA'', ''Group Policy Admins''),
      (''IU'', ''Interactive Users''),
      (''LA'', ''Local Administrator''),
      (''LG'', ''Local Guest''),
      (''LS'', ''Local Service''),
      (''SY'', ''Local System''),
      (''NU'', ''Network''),
      (''LW'', ''Low Integrity''),
      (''ME'', ''Medium Integrity''),
      (''HI'', ''High Integrity''),
      (''SI'', ''System Integrity''),
      (''NO'', ''Network Configuration Operators''),
      (''NS'', ''Network Service''),
      (''PO'', ''Printer Operators''),
      (''PS'', ''Self''),
      (''PU'', ''Power Users''),
      (''RS'', ''RAS Servers''),
      (''RD'', ''Remote Desktop Users''),
      (''RE'', ''Replicator''),
      (''RC'', ''Restricted Code''),
      (''SA'', ''Schema Administrators''),
      (''SO'', ''Server Operators''),
      (''SU'', ''Service'')]"

definition TRUSTEE :: dict where
  "TRUSTEE = dict_display TRUSTEE_items"

text \<open>\<^verbatim>\<open>d[k]\<close> raises \<^verbatim>\<open>KeyError\<close> when \<open>k\<close> is not a key of \<open>d\<close>. A string is true
  when it is not empty, \<^verbatim>\<open>None\<close> is false.\<close>

definition getitem :: "dict \<Rightarrow> string \<Rightarrow> error + string" where
  "getitem d k = (case d k of None \<Rightarrow> Inl (KeyError k) | Some v \<Rightarrow> Inr v)"

definition truthy :: "string option \<Rightarrow> bool" where
  "truthy v = (case v of None \<Rightarrow> False | Some s \<Rightarrow> s \<noteq> [])"

subsection \<open>TranslateSid\<close>

text \<open>
  \<^verbatim>\<open>wmi.WMI().Get\<close> belongs to Tim Golden's \<^verbatim>\<open>wmi\<close> module, which is not part of the
  repository: it is a parameter, a function from the WMI path to the account object it
  finds, if any.
\<close>

record account =
  ReferencedDomainName :: string
  AccountName :: string

type_synonym wmi_get = "string \<Rightarrow> account option"

definition TranslateSid :: "wmi_get \<Rightarrow> string \<Rightarrow> string option" where
  "TranslateSid Get sid_string =
     (case Get (''Win32_SID.SID='' @ [CHR 0x22] @ sid_string @ [CHR 0x22]) of
        Some acc \<Rightarrow> Some (ReferencedDomainName acc @ [CHR 0x5C] @ AccountName acc)
      | None \<Rightarrow> None)"

subsection \<open>ACE\<close>

record ace =
  ace_string :: string
  flags :: "string list"
  perms :: "string list"
  ace_type :: string
  object_type :: string
  inherited_type :: string
  trustee :: "string option"

text \<open>\<^verbatim>\<open>str.split(sep)\<close>: the pieces between the separators, one more than there are
  separators.\<close>

fun split_acc :: "char \<Rightarrow> string \<Rightarrow> string \<Rightarrow> string list" where
  "split_acc sep cur [] = [cur]"
| "split_acc sep cur (c # cs) =
     (if c = sep then cur # split_acc sep [] cs else split_acc sep (cur @ [c]) cs)"

definition split :: "char \<Rightarrow> string \<Rightarrow> string list" where
  "split sep s = split_acc sep [] s"

text \<open>
  The idiom of lines 204 to 219, \<^verbatim>\<open>if D[k]: x = D[k]  else: x = k\<close>. The subscript
  raises on a missing key; the \<^verbatim>\<open>else\<close> branch is taken for a key whose value is the
  empty string.
\<close>

definition translate :: "dict \<Rightarrow> string \<Rightarrow> error + string" where
  "translate d k =
     (case getitem d k of
        Inl e \<Rightarrow> Inl e
      | Inr v \<Rightarrow> Inr (if v \<noteq> [] then v else k))"

text \<open>The two \<^verbatim>\<open>for\<close> loops over the codes of a field: they append in the order of the
  codes and stop at the first exception.\<close>

fun translate_each :: "dict \<Rightarrow> string list \<Rightarrow> string list \<Rightarrow> error + string list" where
  "translate_each d acc [] = Inr acc"
| "translate_each d acc (k # ks) =
     (case translate d k of
        Inl e \<Rightarrow> Inl e
      | Inr v \<Rightarrow> translate_each d (acc @ [v]) ks)"

definition ACE_init :: "wmi_get \<Rightarrow> dict \<Rightarrow> string \<Rightarrow> error + ace" where
  "ACE_init Get access_constants ace_str =
     (let LOCAL_ACCESS = access_constants;
          fields = split CHR '';'' ace_str
      in
      if length fields \<noteq> 6 then Inl InvalidAceStringError
      else
        case translate LOCAL_ACCESS (fields ! 0) of
          Inl e \<Rightarrow> Inl e
        | Inr ty \<Rightarrow>
        (case translate_each LOCAL_ACCESS [] (re_findall re_const (fields ! 1)) of
           Inl e \<Rightarrow> Inl e
         | Inr fl \<Rightarrow>
        (case translate_each LOCAL_ACCESS [] (re_findall re_const (fields ! 2)) of
           Inl e \<Rightarrow> Inl e
         | Inr pm \<Rightarrow>
        (case getitem TRUSTEE (fields ! 5) of
           Inl e \<Rightarrow> Inl e
         | Inr t \<Rightarrow>
             let trustee1 = (if t \<noteq> [] then Some t else None);
                 trustee2 = (if \<not> truthy trustee1 then TranslateSid Get (fields ! 5)
                             else trustee1);
                 trustee3 = (if \<not> truthy trustee2 then Some ''Unknown or invalid SID.''
                             else trustee2)
             in Inr \<lparr>ace_string = ace_str,
                     flags = fl,
                     perms = sort pm,
                     ace_type = ty,
                     object_type = fields ! 3,
                     inherited_type = fields ! 4,
                     trustee = trustee3\<rparr>))))"

subsection \<open>SDDL\<close>

record sddl =
  target :: "string option"
  sddl_string :: string
  sddl_type :: "string option"
  acl :: "ace list"
  group_sid :: "string option"
  group_account :: "string option"
  owner_sid :: "string option"
  owner_account :: "string option"

text \<open>Lines 264 to 277: the thirteen assignments made when the target is
  \<^verbatim>\<open>'service'\<close>. \<^verbatim>\<open>self.ACCESS\<close> is the module's dictionary itself
  (\<^verbatim>\<open>self.ACCESS = ACCESS\<close> binds a second name to the same object), so the
  assignments change the module's dictionary.\<close>

definition service_assignments :: "(string \<times> string) list" where
  "service_assignments =
     [(''CC'', ''Query Configuration''),
      (''DC'', ''Change Configuration''),
      (''LC'', ''Query State''),
      (''SW'', ''Enumerate Dependencies''),
      (''RP'', ''Start''),
      (''WP'', ''Stop''),
      (''DT'', ''Pause''),
      (''LO'', ''Interrogate''),
      (''CR'', ''User Defined''),
      (''SD'', ''Delete''),
      (''RC'', ''Read the Security Descriptor''),
      (''WD'', ''Change Permissions''),
      (''WO'', ''Change Owner'')]"

fun assign_all :: "dict \<Rightarrow> (string \<times> string) list \<Rightarrow> dict" where
  "assign_all d [] = d"
| "assign_all d (kv # kvs) = assign_all (d(fst kv \<mapsto> snd kv)) kvs"

text \<open>Lines 292 and 293: one \<^verbatim>\<open>ACE\<close> per parenthesised group of the ACL part, appended
  in order; the first exception ends the loop.\<close>

fun append_aces :: "wmi_get \<Rightarrow> dict \<Rightarrow> ace list \<Rightarrow> string list \<Rightarrow> error + ace list" where
  "append_aces Get d acc [] = Inr acc"
| "append_aces Get d acc (p # ps) =
     (case ACE_init Get d p of
        Inl e \<Rightarrow> Inl e
      | Inr a \<Rightarrow> append_aces Get d (acc @ [a]) ps)"

text \<open>Lines 298 to 304 for the group and 309 to 315 for the owner, which differ in the
  names of the attributes only.\<close>

definition account_name :: "wmi_get \<Rightarrow> string \<Rightarrow> string option" where
  "account_name Get sid =
     (let acc = (if TRUSTEE sid \<noteq> None then TRUSTEE sid else TranslateSid Get sid)
      in if \<not> truthy acc then Some ''Unknown'' else acc)"

text \<open>The body of the loop of line 279 for a match that is not \<^verbatim>\<open>None\<close>.\<close>

definition loop_body :: "wmi_get \<Rightarrow> dict \<Rightarrow> sddl \<Rightarrow> string \<Rightarrow> error + sddl" where
  "loop_body Get d self part =
     (case match_group (re_match re_type part) of
        Inl e \<Rightarrow> Inl e
      | Inr sddl_prefix \<Rightarrow>
          if sddl_prefix \<in> set [''D'', ''S''] then
            (case SDDL_TYPE sddl_prefix of
               None \<Rightarrow> Inl InvalidSddlTypeError
             | Some ty \<Rightarrow>
                 (case append_aces Get d (acl self) (re_findall re_perms part) of
                    Inl e \<Rightarrow> Inl e
                  | Inr aces \<Rightarrow> Inr (self\<lparr>sddl_type := Some ty, acl := aces\<rparr>)))
          else if sddl_prefix = ''G'' then
            (case match_group (re_search re_non_acl part) of
               Inl e \<Rightarrow> Inl e
             | Inr sid \<Rightarrow>
                 Inr (self\<lparr>group_sid := Some sid, group_account := account_name Get sid\<rparr>))
          else if sddl_prefix = ''O'' then
            (case match_group (re_search re_non_acl part) of
               Inl e \<Rightarrow> Inl e
             | Inr sid \<Rightarrow>
                 Inr (self\<lparr>owner_sid := Some sid, owner_account := account_name Get sid\<rparr>))
          else Inl InvalidSddlStringError)"

fun for_match :: "wmi_get \<Rightarrow> dict \<Rightarrow> sddl \<Rightarrow> string option list \<Rightarrow> error + sddl" where
  "for_match Get d self [] = Inr self"
| "for_match Get d self (None # ms) = for_match Get d self ms"
| "for_match Get d self (Some part # ms) =
     (case loop_body Get d self part of
        Inl e \<Rightarrow> Inl e
      | Inr self' \<Rightarrow> for_match Get d self' ms)"

text \<open>
  \<^verbatim>\<open>SDDL.__init__\<close>. The second argument is the module's \<^verbatim>\<open>ACCESS\<close> dictionary as
  the call finds it; the second component of the result is that dictionary as the call
  leaves it, whether the constructor returns or raises (the assignments of lines 265 to
  277 come before anything that can raise).
\<close>

definition SDDL_init :: "wmi_get \<Rightarrow> dict \<Rightarrow> string \<Rightarrow> string option \<Rightarrow> (error + sddl) \<times> dict" where
  "SDDL_init Get access sddl_str tgt =
     (let sddl_owner_part = re_search re_owner sddl_str;
          sddl_group_part = re_search re_group sddl_str;
          sddl_acl_part = re_search re_acl sddl_str;
          self = \<lparr>target = tgt, sddl_string = sddl_str, sddl_type = None, acl = [],
                  group_sid = None, group_account = None,
                  owner_sid = None, owner_account = None\<rparr>;
          access' = (if tgt = Some ''service'' then assign_all access service_assignments
                     else access)
      in (for_match Get access' self [sddl_owner_part, sddl_group_part, sddl_acl_part],
          access'))"

section \<open>Properties\<close>

subsection \<open>The regular expressions\<close>

lemma backtrack_Some: "backtrack k s n = Some m \<Longrightarrow> 0 < m \<and> m \<le> n \<and> k (drop m s)"
  by (induction n) (auto split: if_splits)

lemma backtrack_None: "(\<And>m. \<not> k (drop m s)) \<Longrightarrow> backtrack k s n = None"
  by (induction n) auto

lemma lookahead_colon: "lookahead cs r \<Longrightarrow> CHR '':'' \<in> set r"
  by (auto simp: lookahead_def split: list.splits)

lemma lookahead_shape: "lookahead cs r \<Longrightarrow> \<exists>c rest. r = c # CHR '':'' # rest \<and> c \<in> set cs"
  by (auto simp: lookahead_def split: list.splits)

lemma no_lookahead: "CHR '':'' \<notin> set r \<Longrightarrow> \<not> lookahead cs (drop m r)"
  using lookahead_colon [of cs "drop m r"] by (auto dest: in_set_dropD)

lemma plus_greedy_lookahead:
  assumes "plus_greedy cls (lookahead cs) r = Some g"
  shows "\<exists>c rest. r = g @ c # CHR '':'' # rest \<and> c \<in> set cs"
proof -
  from assms obtain n where n: "backtrack (lookahead cs) r (length (takeWhile cls r)) = Some n"
    and g: "g = take n r"
    by (auto simp: plus_greedy_def)
  from backtrack_Some [OF n] have "lookahead cs (drop n r)" by simp
  then obtain c rest where "drop n r = c # CHR '':'' # rest" "c \<in> set cs"
    using lookahead_shape by blast
  with g show ?thesis
    using append_take_drop_id [of n r] by metis
qed

lemma search_owner_not_bos: "search_from re_owner False s = None"
  by (induction s) (auto simp: re_owner_def)

lemma re_search_owner: "re_search re_owner s = map_option fst (re_owner True s)"
  by (cases s) (auto simp: re_search_def search_owner_not_bos split: option.splits)

lemma re_owner_followed:
  assumes "re_search re_owner s = Some m"
  shows "\<exists>c rest. s = m @ c # CHR '':'' # rest \<and> c \<in> set ''DGS''"
proof -
  from assms obtain x y r g where s: "s = x # y # r" and xy: "x = CHR ''O''" "y = CHR '':''"
    and g: "plus_greedy not_colon_paren (lookahead ''DGS'') r = Some g" and m: "m = x # y # g"
    by (auto simp: re_search_owner re_owner_def split: list.splits if_splits)
  from plus_greedy_lookahead [OF g] obtain c rest
    where "r = g @ c # CHR '':'' # rest" "c \<in> set ''DGS''" by blast
  with s m show ?thesis by auto
qed

lemma re_group_followed_from:
  "search_from re_group b s = Some m \<Longrightarrow>
   \<exists>pre c rest. s = pre @ m @ c # CHR '':'' # rest \<and> c \<in> set ''DOS''"
proof (induction s arbitrary: b)
  case Nil
  then show ?case by (simp add: re_group_def)
next
  case (Cons x xs)
  show ?case
  proof (cases "re_group b (x # xs)")
    case None
    with Cons.prems have "search_from re_group False xs = Some m" by simp
    from Cons.IH [OF this] obtain pre c rest
      where "xs = pre @ m @ c # CHR '':'' # rest" "c \<in> set ''DOS''" by blast
    then have "x # xs = (x # pre) @ m @ c # CHR '':'' # rest" by simp
    with \<open>c \<in> set ''DOS''\<close> show ?thesis by blast
  next
    case (Some r)
    with Cons.prems have m: "m = fst r" by simp
    have "\<exists>y ys g. xs = y # ys \<and> plus_greedy not_colon_paren (lookahead ''DOS'') ys = Some g
        \<and> fst r = x # y # g"
    proof (cases xs)
      case Nil
      with Some show ?thesis by (simp add: re_group_def)
    next
      case (Cons y ys)
      with Some show ?thesis
        by (cases "plus_greedy not_colon_paren (lookahead ''DOS'') ys")
          (auto simp: re_group_def split: if_splits)
    qed
    then obtain y ys g where xs: "xs = y # ys"
      and g: "plus_greedy not_colon_paren (lookahead ''DOS'') ys = Some g"
      and r: "fst r = x # y # g"
      by blast
    from plus_greedy_lookahead [OF g] obtain c rest
      where "ys = g @ c # CHR '':'' # rest" "c \<in> set ''DOS''" by blast
    with xs m r have "x # xs = [] @ m @ c # CHR '':'' # rest" by simp
    with \<open>c \<in> set ''DOS''\<close> show ?thesis by blast
  qed
qed

text \<open>A match of \<^const>\<open>re_group\<close> or \<^const>\<open>re_acl\<close> starts at its letter, which a colon follows.\<close>

lemma search_group_None:
  "(\<And>pre post. s \<noteq> pre @ CHR ''G'' # CHR '':'' # post) \<Longrightarrow> search_from re_group b s = None"
proof (induction s arbitrary: b)
  case Nil
  then show ?case by (simp add: re_group_def)
next
  case (Cons x xs)
  have "re_group b (x # xs) = None"
    using Cons.prems [of "[]"] by (auto simp: re_group_def split: list.splits)
  moreover have "search_from re_group False xs = None"
  proof (rule Cons.IH)
    fix pre post
    show "xs \<noteq> pre @ CHR ''G'' # CHR '':'' # post"
      using Cons.prems [of "x # pre" post] by auto
  qed
  ultimately show ?case by simp
qed

lemma search_acl_None:
  "(\<And>pre c post. c \<in> set ''DS'' \<Longrightarrow> s \<noteq> pre @ c # CHR '':'' # post) \<Longrightarrow>
   search_from re_acl b s = None"
proof (induction s arbitrary: b)
  case Nil
  then show ?case by (simp add: re_acl_def)
next
  case (Cons x xs)
  have "re_acl b (x # xs) = None"
    using Cons.prems [of _ "[]"] by (auto simp: re_acl_def split: list.splits)
  moreover have "search_from re_acl False xs = None"
  proof (rule Cons.IH)
    fix pre c post
    assume "c \<in> set ''DS''"
    then show "xs \<noteq> pre @ c # CHR '':'' # post"
      using Cons.prems [of c "x # pre" post] by auto
  qed
  ultimately show ?case by simp
qed

lemma colon_only_after_O:
  assumes "CHR '':'' \<notin> set code" and "CHR ''O'' # CHR '':'' # code = pre @ c # CHR '':'' # post"
  shows "c = CHR ''O''"
proof (cases pre)
  case Nil
  with assms show ?thesis by simp
next
  case (Cons x pre')
  show ?thesis
  proof (cases pre')
    case Nil
    with Cons assms show ?thesis by simp
  next
    case (Cons y pre'')
    with \<open>pre = x # pre'\<close> assms(2) have "code = pre'' @ c # CHR '':'' # post" by simp
    with assms(1) show ?thesis by simp
  qed
qed

lemma owner_only_searches:
  assumes "CHR '':'' \<notin> set code"
  shows "re_search re_owner (''O:'' @ code) = None"
    and "re_search re_group (''O:'' @ code) = None"
    and "re_search re_acl (''O:'' @ code) = None"
proof -
  show "re_search re_owner (''O:'' @ code) = None"
    using assms
    by (simp add: re_search_owner re_owner_def plus_greedy_def backtrack_None no_lookahead)
  show "re_search re_group (''O:'' @ code) = None"
    unfolding re_search_def
  proof (rule search_group_None)
    fix pre post
    show "''O:'' @ code \<noteq> pre @ CHR ''G'' # CHR '':'' # post"
      using colon_only_after_O [OF assms, of pre "CHR ''G''" post] by auto
  qed
  show "re_search re_acl (''O:'' @ code) = None"
    unfolding re_search_def
  proof (rule search_acl_None)
    fix pre c post
    assume "c \<in> set ''DS''"
    then show "''O:'' @ code \<noteq> pre @ c # CHR '':'' # post"
      using colon_only_after_O [OF assms, of pre c post] by auto
  qed
qed

lemma no_part_found:
  assumes "re_search re_owner s = None" "re_search re_group s = None" "re_search re_acl s = None"
  shows "SDDL_init Get d s tgt =
     (Inr \<lparr>target = tgt, sddl_string = s, sddl_type = None, acl = [],
           group_sid = None, group_account = None, owner_sid = None, owner_account = None\<rparr>,
      if tgt = Some ''service'' then assign_all d service_assignments else d)"
  using assms by (simp add: SDDL_init_def Let_def)


subsection \<open>Field count\<close>

lemma length_split_acc: "length (split_acc sep cur s) = Suc (count_list s sep)"
  by (induction s arbitrary: cur) auto

lemma length_split: "length (split sep s) = Suc (count_list s sep)"
  by (simp add: split_def length_split_acc)

text \<open>
  C6. For every entry string that, split on \<^verbatim>\<open>;\<close>, does not yield exactly six fields,
  the construction of the \<^verbatim>\<open>ACE\<close> fails with \<^verbatim>\<open>InvalidAceStringError\<close>,
  whatever the table and the resolver.
\<close>

theorem ACE_init_field_count:
  "length (split CHR '';'' s) \<noteq> 6 \<Longrightarrow> ACE_init Get d s = Inl InvalidAceStringError"
  by (simp add: ACE_init_def Let_def)

text \<open>Example 3 of the specification (seven fields), and the empty string (one field).\<close>

theorem ACE_init_field_count_witness:
  "length (split CHR '';'' ''A;;RC;;;BU;EXTRA'') \<noteq> 6
   \<and> ACE_init Map.empty ACCESS ''A;;RC;;;BU;EXTRA'' = Inl InvalidAceStringError
   \<and> length (split CHR '';'' []) \<noteq> 6
   \<and> ACE_init Map.empty ACCESS [] = Inl InvalidAceStringError"
proof -
  have h1: "length (split CHR '';'' ''A;;RC;;;BU;EXTRA'') \<noteq> 6"
    by (simp add: split_def)
  have h2: "length (split CHR '';'' []) \<noteq> 6"
    by (simp add: split_def)
  show ?thesis
    using h1 h2 ACE_init_field_count [OF h1] ACE_init_field_count [OF h2] by blast
qed

subsection \<open>An owner section alone\<close>

text \<open>
  C9. A match of \<^verbatim>\<open>re_owner\<close> is immediately followed in the input by \<^verbatim>\<open>D:\<close>,
  \<^verbatim>\<open>G:\<close> or \<^verbatim>\<open>S:\<close>, and a match of \<^verbatim>\<open>re_group\<close> by \<^verbatim>\<open>D:\<close>,
  \<^verbatim>\<open>O:\<close> or \<^verbatim>\<open>S:\<close>. For every input that is an owner section and nothing else
  (\<^verbatim>\<open>O:\<close> and a code with no colon in it), the constructor raises nothing and leaves
  \<^verbatim>\<open>owner_sid\<close> and \<^verbatim>\<open>owner_account\<close> (and every other attribute) unset.
\<close>

theorem owner_section_alone_is_not_recognized:
  "(re_search re_owner s = Some m \<longrightarrow>
      (\<exists>c rest. s = m @ c # CHR '':'' # rest \<and> c \<in> set ''DGS''))
   \<and> (re_search re_group s' = Some m' \<longrightarrow>
      (\<exists>pre c rest. s' = pre @ m' @ c # CHR '':'' # rest \<and> c \<in> set ''DOS''))
   \<and> (CHR '':'' \<notin> set code \<longrightarrow>
      SDDL_init Get d (''O:'' @ code) tgt =
        (Inr \<lparr>target = tgt, sddl_string = ''O:'' @ code, sddl_type = None, acl = [],
              group_sid = None, group_account = None,
              owner_sid = None, owner_account = None\<rparr>,
         if tgt = Some ''service'' then assign_all d service_assignments else d))"
  using re_owner_followed [of s m] re_group_followed_from [of True s' m']
    no_part_found [OF owner_only_searches, of code]
  by (simp add: re_search_def)

theorem owner_section_alone_is_not_recognized_witness:
  "re_search re_owner ''O:BAD:(A;;RC;;;BU)'' = Some ''O:BA''
   \<and> (\<exists>c rest. ''O:BAD:(A;;RC;;;BU)'' = ''O:BA'' @ c # CHR '':'' # rest \<and> c \<in> set ''DGS'')
   \<and> re_search re_group ''O:BAG:SYD:(A;;RC;;;BU)'' = Some ''G:SY''
   \<and> (\<exists>pre c rest. ''O:BAG:SYD:(A;;RC;;;BU)'' = pre @ ''G:SY'' @ c # CHR '':'' # rest
         \<and> c \<in> set ''DOS'')
   \<and> CHR '':'' \<notin> set ''BA''
   \<and> SDDL_init Map.empty ACCESS ''O:BA'' None =
        (Inr \<lparr>target = None, sddl_string = ''O:BA'', sddl_type = None, acl = [],
              group_sid = None, group_account = None,
              owner_sid = None, owner_account = None\<rparr>,
         ACCESS)"
proof -
  note T = owner_section_alone_is_not_recognized
    [of "''O:BAD:(A;;RC;;;BU)''" "''O:BA''" "''O:BAG:SYD:(A;;RC;;;BU)''" "''G:SY''" "''BA''"
      Map.empty ACCESS None]
  have h1: "re_search re_owner ''O:BAD:(A;;RC;;;BU)'' = Some ''O:BA''"
    by code_simp
  have h2: "re_search re_group ''O:BAG:SYD:(A;;RC;;;BU)'' = Some ''G:SY''"
    by code_simp
  have h3: "CHR '':'' \<notin> set ''BA''"
    by simp
  from T h1 have c1:
    "\<exists>c rest. ''O:BAD:(A;;RC;;;BU)'' = ''O:BA'' @ c # CHR '':'' # rest \<and> c \<in> set ''DGS''"
    by blast
  from T h2 have c2:
    "\<exists>pre c rest. ''O:BAG:SYD:(A;;RC;;;BU)'' = pre @ ''G:SY'' @ c # CHR '':'' # rest
       \<and> c \<in> set ''DOS''"
    by blast
  from T h3 have c3:
    "SDDL_init Map.empty ACCESS (''O:'' @ ''BA'') None =
        (Inr \<lparr>target = None, sddl_string = ''O:'' @ ''BA'', sddl_type = None, acl = [],
              group_sid = None, group_account = None,
              owner_sid = None, owner_account = None\<rparr>,
         if None = Some ''service'' then assign_all ACCESS service_assignments else ACCESS)"
    by blast
  from c3 have c3': "SDDL_init Map.empty ACCESS ''O:BA'' None =
        (Inr \<lparr>target = None, sddl_string = ''O:BA'', sddl_type = None, acl = [],
              group_sid = None, group_account = None,
              owner_sid = None, owner_account = None\<rparr>,
         ACCESS)"
    by simp
  from h1 c1 h2 c2 h3 c3' show ?thesis
    by blast
qed

subsection \<open>Lookups\<close>

lemma translate_Inl: "translate d k = Inl e \<Longrightarrow> e = KeyError k \<and> d k = None"
  by (auto simp: translate_def getitem_def split: option.splits)

lemma translate_Inr: "translate d k = Inr v \<Longrightarrow> d k \<noteq> None"
  by (auto simp: translate_def getitem_def split: option.splits)

lemma translate_known: "d k \<noteq> None \<Longrightarrow> \<exists>v. translate d k = Inr v"
  by (auto simp: translate_def getitem_def)

lemma translate_each_Inl: "translate_each d acc ks = Inl e \<Longrightarrow> \<exists>k. e = KeyError k"
proof (induction ks arbitrary: acc)
  case Nil
  then show ?case by simp
next
  case (Cons k ks)
  then show ?case
    by (cases "translate d k") (auto dest: translate_Inl)
qed

lemma translate_each_Inr:
  "translate_each d acc ks = Inr vs \<Longrightarrow> map Inr vs = map Inr acc @ map (translate d) ks"
proof (induction ks arbitrary: acc)
  case Nil
  then show ?case by simp
next
  case (Cons k ks)
  then show ?case
    by (cases "translate d k") auto
qed

lemma translate_each_known:
  "list_all (\<lambda>k. d k \<noteq> None) ks \<Longrightarrow> \<exists>vs. translate_each d acc ks = Inr vs"
proof (induction ks arbitrary: acc)
  case Nil
  then show ?case by simp
next
  case (Cons k ks)
  from Cons.prems obtain v where "translate d k = Inr v"
    using translate_known [of d k] by auto
  with Cons show ?case by simp
qed

subsection \<open>What the construction of an entry returns\<close>

lemma ACE_init_Inl:
  "ACE_init Get d s = Inl e \<Longrightarrow> e = InvalidAceStringError \<or> (\<exists>k. e = KeyError k)"
  unfolding ACE_init_def Let_def
  by (auto simp: getitem_def split: if_splits sum.splits option.splits
      dest: translate_Inl translate_each_Inl)

lemma ACE_init_Inr_fields:
  assumes "ACE_init Get d s = Inr a"
  shows "\<exists>ty fl pm tr.
      length (split CHR '';'' s) = 6
      \<and> translate d (split CHR '';'' s ! 0) = Inr ty
      \<and> translate_each d [] (re_findall re_const (split CHR '';'' s ! 1)) = Inr fl
      \<and> translate_each d [] (re_findall re_const (split CHR '';'' s ! 2)) = Inr pm
      \<and> tr \<noteq> []
      \<and> a = \<lparr>ace_string = s, flags = fl, perms = sort pm, ace_type = ty,
               object_type = split CHR '';'' s ! 3, inherited_type = split CHR '';'' s ! 4,
               trustee = Some tr\<rparr>"
  using assms unfolding ACE_init_def Let_def
  by (auto simp: truthy_def split: if_splits sum.splits option.splits)

lemma ACE_init_Inr:
  assumes "ACE_init Get d s = Inr a"
  shows "length (split CHR '';'' s) = 6"
    and "map Inr (flags a) = map (translate d) (re_findall re_const (split CHR '';'' s ! 1))"
    and "\<exists>pm. map Inr pm = map (translate d) (re_findall re_const (split CHR '';'' s ! 2))
           \<and> perms a = sort pm"
    and "truthy (trustee a)"
proof -
  from ACE_init_Inr_fields [OF assms] obtain ty fl pm tr
    where len: "length (split CHR '';'' s) = 6"
      and fl: "translate_each d [] (re_findall re_const (split CHR '';'' s ! 1)) = Inr fl"
      and pm: "translate_each d [] (re_findall re_const (split CHR '';'' s ! 2)) = Inr pm"
      and tr: "tr \<noteq> []"
      and a: "a = \<lparr>ace_string = s, flags = fl, perms = sort pm, ace_type = ty,
               object_type = split CHR '';'' s ! 3, inherited_type = split CHR '';'' s ! 4,
               trustee = Some tr\<rparr>"
    by blast
  show "length (split CHR '';'' s) = 6"
    by (rule len)
  show "map Inr (flags a) = map (translate d) (re_findall re_const (split CHR '';'' s ! 1))"
    using translate_each_Inr [OF fl] a by simp
  show "\<exists>pm. map Inr pm = map (translate d) (re_findall re_const (split CHR '';'' s ! 2))
           \<and> perms a = sort pm"
    using translate_each_Inr [OF pm] a by auto
  show "truthy (trustee a)"
    using tr a by (simp add: truthy_def)
qed

lemma ACE_init_known:
  assumes "length (split CHR '';'' s) = 6"
    and "d (split CHR '';'' s ! 0) \<noteq> None"
    and "list_all (\<lambda>k. d k \<noteq> None) (re_findall re_const (split CHR '';'' s ! 1))"
    and "list_all (\<lambda>k. d k \<noteq> None) (re_findall re_const (split CHR '';'' s ! 2))"
    and "TRUSTEE (split CHR '';'' s ! 5) \<noteq> None"
  shows "\<exists>a. ACE_init Get d s = Inr a"
proof -
  obtain ty where "translate d (split CHR '';'' s ! 0) = Inr ty"
    using translate_known [of d "split CHR '';'' s ! 0"] assms(2) by blast
  moreover obtain fl
    where "translate_each d [] (re_findall re_const (split CHR '';'' s ! 1)) = Inr fl"
    using translate_each_known [of d _ "[]"] assms(3) by blast
  moreover obtain pm
    where "translate_each d [] (re_findall re_const (split CHR '';'' s ! 2)) = Inr pm"
    using translate_each_known [of d _ "[]"] assms(4) by blast
  moreover obtain t where "TRUSTEE (split CHR '';'' s ! 5) = Some t"
    using assms(5) by blast
  ultimately show ?thesis
    using assms(1) by (simp add: ACE_init_def Let_def getitem_def)
qed

text \<open>
  When the string has six fields and the code of field 0, the codes of fields 1 and 2 and
  the trustee code of field 5 are keys of their tables, every subscript of lines 204 to
  226 succeeds: the construction returns one entry whose permissions are the translated
  codes of field 2 sorted ascending (the order of byte strings), and whose flags are the
  translated codes of field 1 in the order of the source.
\<close>

lemma ACE_init_perms_sorted_flags_in_order:
  assumes "split CHR '';'' s = [f0, f1, f2, f3, f4, f5]"
    and "d f0 \<noteq> None"
    and "list_all (\<lambda>k. d k \<noteq> None) (re_findall re_const f1)"
    and "list_all (\<lambda>k. d k \<noteq> None) (re_findall re_const f2)"
    and "TRUSTEE f5 \<noteq> None"
  shows "\<exists>a. ACE_init Get d s = Inr a
     \<and> sorted (perms a)
     \<and> mset (map Inr (perms a)) = mset (map (translate d) (re_findall re_const f2))
     \<and> map Inr (flags a) = map (translate d) (re_findall re_const f1)"
proof -
  from assms obtain a where a: "ACE_init Get d s = Inr a"
    using ACE_init_known [of s d Get] by auto
  from ACE_init_Inr(3) [OF a] assms(1) obtain pm
    where pm: "map Inr pm = map (translate d) (re_findall re_const f2)" "perms a = sort pm"
    by auto
  have "mset (map Inr (perms a)) = mset (map (translate d) (re_findall re_const f2))"
    using pm by (metis mset_map mset_sort)
  moreover have "sorted (perms a)"
    using pm by simp
  moreover have "map Inr (flags a) = map (translate d) (re_findall re_const f1)"
    using ACE_init_Inr(2) [OF a] assms(1) by simp
  ultimately show ?thesis
    using a by blast
qed

lemma ACE_init_perms_sorted_flags_in_order_example:
  "split CHR '';'' ''A;CIOI;WPRPRC;;;BU'' = [''A'', ''CIOI'', ''WPRPRC'', [], [], ''BU'']
   \<and> ACCESS ''A'' \<noteq> None
   \<and> list_all (\<lambda>k. ACCESS k \<noteq> None) (re_findall re_const ''CIOI'')
   \<and> list_all (\<lambda>k. ACCESS k \<noteq> None) (re_findall re_const ''WPRPRC'')
   \<and> TRUSTEE ''BU'' \<noteq> None
   \<and> (\<exists>a. ACE_init Map.empty ACCESS ''A;CIOI;WPRPRC;;;BU'' = Inr a
       \<and> sorted (perms a)
       \<and> mset (map Inr (perms a)) = mset (map (translate ACCESS) (re_findall re_const ''WPRPRC''))
       \<and> map Inr (flags a) = map (translate ACCESS) (re_findall re_const ''CIOI''))
   \<and> ACE_init Map.empty ACCESS ''A;CIOI;WPRPRC;;;BU'' =
       Inr \<lparr>ace_string = ''A;CIOI;WPRPRC;;;BU'',
            flags = [''CONTAINER_INHERIT'', ''OBJECT_INHERIT''],
            perms = [''DS_READ_PROP'', ''DS_WRITE_PROP'', ''READ_CONTROL''],
            ace_type = ''ACCESS_ALLOWED'', object_type = [], inherited_type = [],
            trustee = Some ''Users''\<rparr>"
proof -
  have v: "ACE_init Map.empty ACCESS ''A;CIOI;WPRPRC;;;BU'' =
       Inr \<lparr>ace_string = ''A;CIOI;WPRPRC;;;BU'',
            flags = [''CONTAINER_INHERIT'', ''OBJECT_INHERIT''],
            perms = [''DS_READ_PROP'', ''DS_WRITE_PROP'', ''READ_CONTROL''],
            ace_type = ''ACCESS_ALLOWED'', object_type = [], inherited_type = [],
            trustee = Some ''Users''\<rparr>"
    by code_simp
  have h1: "split CHR '';'' ''A;CIOI;WPRPRC;;;BU'' = [''A'', ''CIOI'', ''WPRPRC'', [], [], ''BU'']"
    by (simp add: split_def)
  have h2: "ACCESS ''A'' \<noteq> None"
    by code_simp
  have h3: "list_all (\<lambda>k. ACCESS k \<noteq> None) (re_findall re_const ''CIOI'')"
    by code_simp
  have h4: "list_all (\<lambda>k. ACCESS k \<noteq> None) (re_findall re_const ''WPRPRC'')"
    by code_simp
  have h5: "TRUSTEE ''BU'' \<noteq> None"
    by code_simp
  from ACE_init_perms_sorted_flags_in_order [OF h1 h2 h3 h4 h5, of Map.empty]
  show ?thesis
    using h1 h2 h3 h4 h5 v by blast
qed


text \<open>
  C7. A six-field entry string does not always produce an entry: the entry of Example 1
  of the specification, \<^verbatim>\<open>A;;CCLCSWLOCRRC;;;AU\<close>, has six fields and raises
  \<^verbatim>\<open>KeyError('CR')\<close> on the table as loaded, and a six-field entry whose trustee is a
  security identifier raises \<^verbatim>\<open>KeyError\<close> at line 226. No sorted permissions and no
  flags come out of either.
\<close>

theorem six_field_entry_raises:
  "length (split CHR '';'' ''A;;CCLCSWLOCRRC;;;AU'') = 6
   \<and> ACE_init Get ACCESS ''A;;CCLCSWLOCRRC;;;AU'' = Inl (KeyError ''CR'')
   \<and> length (split CHR '';'' ''A;;RC;;;S-1-5-32-545'') = 6
   \<and> ACE_init Get ACCESS ''A;;RC;;;S-1-5-32-545'' = Inl (KeyError ''S-1-5-32-545'')"
  by code_simp

subsection \<open>The codes of a field\<close>















subsection \<open>The exceptions of the constructor\<close>

lemma re_type_prefix:
  "re_match re_type part = Some p \<Longrightarrow> p = ''D'' \<or> p = ''O'' \<or> p = ''G'' \<or> p = ''S''"
  by (auto simp: re_match_def re_type_def split: list.splits if_splits)

lemma append_aces_Inl:
  "append_aces Get d acc ps = Inl e \<Longrightarrow> e = InvalidAceStringError \<or> (\<exists>k. e = KeyError k)"
proof (induction ps arbitrary: acc)
  case Nil
  then show ?case by simp
next
  case (Cons p ps)
  then show ?case
    by (cases "ACE_init Get d p") (auto dest: ACE_init_Inl)
qed

lemma match_group_simps:
  "match_group None = Inl AttributeError" "match_group (Some g) = Inr g"
  by (simp_all add: match_group_def)

lemma loop_body_Inl:
  assumes "loop_body Get d self part = Inl e"
  shows "e = AttributeError \<or> e = InvalidAceStringError \<or> (\<exists>k. e = KeyError k)"
proof (cases "re_match re_type part")
  case None
  with assms show ?thesis
    by (simp add: loop_body_def match_group_simps)
next
  case (Some p)
  from re_type_prefix [OF Some] consider "p = ''D''" | "p = ''S''" | "p = ''G''" | "p = ''O''"
    by blast
  then show ?thesis
  proof cases
    case 1
    with assms Some show ?thesis
      by (auto simp: loop_body_def match_group_simps SDDL_TYPE_def SDDL_TYPE_items_def dict_display_def
          split: sum.splits dest: append_aces_Inl)
  next
    case 2
    with assms Some show ?thesis
      by (auto simp: loop_body_def match_group_simps SDDL_TYPE_def SDDL_TYPE_items_def dict_display_def
          split: sum.splits dest: append_aces_Inl)
  next
    case 3
    with assms Some show ?thesis
      by (cases "re_search re_non_acl part") (auto simp: loop_body_def match_group_simps)
  next
    case 4
    with assms Some show ?thesis
      by (cases "re_search re_non_acl part") (auto simp: loop_body_def match_group_simps)
  qed
qed

lemma for_match_Inl:
  "for_match Get d self ms = Inl e \<Longrightarrow>
   e = AttributeError \<or> e = InvalidAceStringError \<or> (\<exists>k. e = KeyError k)"
proof (induction Get d self ms rule: for_match.induct)
  case (1 Get d self)
  then show ?case by simp
next
  case (2 Get d self ms)
  then show ?case by simp
next
  case (3 Get d self part ms)
  then show ?case
    by (cases "loop_body Get d self part") (auto dest: loop_body_Inl)
qed

lemma SDDL_init_Inl:
  "fst (SDDL_init Get d s tgt) = Inl e \<Longrightarrow>
   e = AttributeError \<or> e = InvalidAceStringError \<or> (\<exists>k. e = KeyError k)"
  by (auto simp: SDDL_init_def Let_def dest: for_match_Inl)

subsection \<open>The service assignments\<close>

lemma assign_all_eq: "assign_all d kvs = d ++ map_of (rev kvs)"
proof (induction kvs arbitrary: d)
  case Nil
  show ?case by simp
next
  case (Cons kv kvs)
  have "assign_all d (kv # kvs) = assign_all (d(fst kv \<mapsto> snd kv)) kvs"
    by simp
  also have "\<dots> = d(fst kv \<mapsto> snd kv) ++ map_of (rev kvs)"
    by (rule Cons.IH)
  also have "\<dots> = d ++ map_of (rev (kv # kvs))"
    by (cases kv) (auto simp: map_add_def fun_eq_iff split: option.splits)
  finally show ?case .
qed

lemma assign_all_changes: "{k. assign_all d kvs k \<noteq> d k} \<subseteq> set (map fst kvs)"
proof
  fix k
  assume "k \<in> {k. assign_all d kvs k \<noteq> d k}"
  then have "map_of (rev kvs) k \<noteq> None"
    by (auto simp: assign_all_eq map_add_def split: option.splits)
  then have "k \<in> fst ` set (rev kvs)"
    by (metis map_of_eq_None_iff)
  then show "k \<in> set (map fst kvs)"
    by simp
qed

lemma SDDL_init_table:
  "snd (SDDL_init Get d s tgt) =
     (if tgt = Some ''service'' then assign_all d service_assignments else d)"
  by (simp add: SDDL_init_def Let_def)

lemma service_names:
  "map (assign_all d service_assignments) (map fst service_assignments) =
     map (Some \<circ> snd) service_assignments"
  by (simp add: service_assignments_def)

lemma service_changes_ACCESS:
  "list_all (\<lambda>k. assign_all ACCESS service_assignments k \<noteq> ACCESS k)
     (map fst service_assignments)"
  by code_simp


subsection \<open>Trustees\<close>

text \<open>No value of \<^const>\<open>TRUSTEE\<close> is empty, so the trustee of an entry that is constructed
  is always the value of the table: lines 229 to 233 are never reached with a false
  \<^verbatim>\<open>self.trustee\<close>. For the owner and the group the chain of table, resolver and
  \<^verbatim>\<open>'Unknown'\<close> always ends in a string that is not empty.\<close>

lemma TRUSTEE_values: "TRUSTEE k = Some v \<Longrightarrow> v \<noteq> []"
proof -
  assume "TRUSTEE k = Some v"
  then have "(k, v) \<in> set TRUSTEE_items"
    by (auto simp: TRUSTEE_def dict_display_def dest: map_of_SomeD)
  moreover have "list_all (\<lambda>kv. snd kv \<noteq> []) TRUSTEE_items"
    by code_simp
  ultimately show ?thesis
    by (auto simp: list_all_iff)
qed

lemma ACE_init_trustee:
  assumes "ACE_init Get d s = Inr a"
  shows "trustee a = TRUSTEE (split CHR '';'' s ! 5) \<and> trustee a \<noteq> None"
proof -
  from assms obtain t where t: "TRUSTEE (split CHR '';'' s ! 5) = Some t"
    unfolding ACE_init_def Let_def
    by (auto simp: getitem_def split: if_splits sum.splits option.splits)
  from TRUSTEE_values [OF t] have "t \<noteq> []" .
  with assms t show ?thesis
    unfolding ACE_init_def Let_def
    by (auto simp: getitem_def truthy_def split: if_splits sum.splits)
qed

lemma account_name_total: "\<exists>n. account_name Get sid = Some n \<and> n \<noteq> []"
  by (cases "TRUSTEE sid"; cases "TranslateSid Get sid")
    (auto simp: account_name_def truthy_def Let_def)

lemma account_name_Unknown:
  "TRUSTEE sid = None \<Longrightarrow> \<not> truthy (TranslateSid Get sid) \<Longrightarrow>
   account_name Get sid = Some ''Unknown''"
  by (simp add: account_name_def Let_def)

subsection \<open>Calls that raise, and calls that do not\<close>

text \<open>
  C2. An entry whose type code, flag code or permission code is not a key of the table
  is not kept as it is: the subscript \<^verbatim>\<open>LOCAL_ACCESS[...]\<close> of lines 204, 210 and 216
  raises \<^verbatim>\<open>KeyError\<close> before the \<^verbatim>\<open>else\<close> branch that would keep the code.
  So does the empty type code.
\<close>

theorem unknown_code_raises:
  "ACE_init Get ACCESS ''XX;;RC;;;BU'' = Inl (KeyError ''XX'')
   \<and> ACE_init Get ACCESS ''A;XX;RC;;;BU'' = Inl (KeyError ''XX'')
   \<and> ACE_init Get ACCESS ''A;;XX;;;BU'' = Inl (KeyError ''XX'')
   \<and> ACE_init Get ACCESS '';;;;;BU'' = Inl (KeyError [])"
  by code_simp

text \<open>
  C3. A trustee of an entry that is not a key of \<^verbatim>\<open>TRUSTEE\<close> raises
  \<^verbatim>\<open>KeyError\<close> at line 226, before the resolver and the literal
  \<^verbatim>\<open>'Unknown or invalid SID.'\<close> are reached; the same identifier as an owner, which
  lines 309 to 315 look up with \<^verbatim>\<open>in\<close>, ends in \<^verbatim>\<open>'Unknown'\<close> when the resolver
  finds nothing.
\<close>

theorem unknown_ace_trustee_raises:
  "ACE_init Get ACCESS ''A;;RC;;;S-1-5-32-545'' = Inl (KeyError ''S-1-5-32-545'')
   \<and> fst (SDDL_init Map.empty ACCESS ''O:S-1-5-32-545D:(A;;RC;;;BU)'' None) =
       Inr \<lparr>target = None, sddl_string = ''O:S-1-5-32-545D:(A;;RC;;;BU)'',
            sddl_type = Some ''DACL'',
            acl = [\<lparr>ace_string = ''A;;RC;;;BU'', flags = [], perms = [''READ_CONTROL''],
                    ace_type = ''ACCESS_ALLOWED'', object_type = [], inherited_type = [],
                    trustee = Some ''Users''\<rparr>],
            group_sid = None, group_account = None,
            owner_sid = Some ''S-1-5-32-545'', owner_account = Some ''Unknown''\<rparr>"
  by code_simp

text \<open>
  C4. With the module's table as it is loaded, the descriptor
  \<^verbatim>\<open>D:(A;;CCLCSWLOCRRC;;;AU)\<close> with no target raises \<^verbatim>\<open>KeyError('CR')\<close>:
  \<^verbatim>\<open>CR\<close> is not a key of \<^verbatim>\<open>ACCESS\<close>.
\<close>

theorem example_1_raises:
  "fst (SDDL_init Get ACCESS ''D:(A;;CCLCSWLOCRRC;;;AU)'' None) = Inl (KeyError ''CR'')
   \<and> ACCESS ''CR'' = None"
  by code_simp

text \<open>
  C5. An input in which none of the three searches finds a part makes the loop of line
  279 skip three times, and the constructor returns an object with every attribute unset.
  For no input, table and target at all does the constructor raise
  \<^verbatim>\<open>InvalidSddlStringError\<close>: a part always starts with one of the four letters.
\<close>

theorem input_without_segment_returns:
  "fst (SDDL_init Get ACCESS ''hello'' None) =
       Inr \<lparr>target = None, sddl_string = ''hello'', sddl_type = None, acl = [],
            group_sid = None, group_account = None,
            owner_sid = None, owner_account = None\<rparr>
   \<and> fst (SDDL_init Get ACCESS [] None) =
       Inr \<lparr>target = None, sddl_string = [], sddl_type = None, acl = [],
            group_sid = None, group_account = None,
            owner_sid = None, owner_account = None\<rparr>
   \<and> fst (SDDL_init Get d s tgt) \<noteq> Inl InvalidSddlStringError"
proof -
  have "fst (SDDL_init Get ACCESS ''hello'' None) =
       Inr \<lparr>target = None, sddl_string = ''hello'', sddl_type = None, acl = [],
            group_sid = None, group_account = None,
            owner_sid = None, owner_account = None\<rparr>"
    by code_simp
  moreover have "fst (SDDL_init Get ACCESS [] None) =
       Inr \<lparr>target = None, sddl_string = [], sddl_type = None, acl = [],
            group_sid = None, group_account = None,
            owner_sid = None, owner_account = None\<rparr>"
    by code_simp
  moreover have "fst (SDDL_init Get d s tgt) \<noteq> Inl InvalidSddlStringError"
    using SDDL_init_Inl [of Get d s tgt InvalidSddlStringError] by auto
  ultimately show ?thesis by blast
qed

text \<open>
  C1. The assignments of a call with the target \<^verbatim>\<open>'service'\<close> stay in the module's
  dictionary after the call, whatever the input and whether the call raised: a later call
  with no target on \<^verbatim>\<open>D:(A;;RP;;;BU)\<close> gives \<^verbatim>\<open>Start\<close>, where the same call on the
  dictionary as loaded gives \<^verbatim>\<open>DS_READ_PROP\<close>. A call with no target leaves the
  dictionary as it found it.
\<close>

theorem service_names_outlive_the_call:
  "snd (SDDL_init Get d s (Some ''service'')) ''RP'' = Some ''Start''
   \<and> snd (SDDL_init Get d s None) = d
   \<and> fst (SDDL_init Get ACCESS ''D:(A;;RP;;;BU)'' None) =
       Inr \<lparr>target = None, sddl_string = ''D:(A;;RP;;;BU)'', sddl_type = Some ''DACL'',
            acl = [\<lparr>ace_string = ''A;;RP;;;BU'', flags = [], perms = [''DS_READ_PROP''],
                    ace_type = ''ACCESS_ALLOWED'', object_type = [], inherited_type = [],
                    trustee = Some ''Users''\<rparr>],
            group_sid = None, group_account = None,
            owner_sid = None, owner_account = None\<rparr>
   \<and> fst (SDDL_init Get
          (snd (SDDL_init Get ACCESS ''D:(A;;RP;;;BU)'' (Some ''service'')))
          ''D:(A;;RP;;;BU)'' None) =
       Inr \<lparr>target = None, sddl_string = ''D:(A;;RP;;;BU)'', sddl_type = Some ''DACL'',
            acl = [\<lparr>ace_string = ''A;;RP;;;BU'', flags = [], perms = [''Start''],
                    ace_type = ''ACCESS_ALLOWED'', object_type = [], inherited_type = [],
                    trustee = Some ''Users''\<rparr>],
            group_sid = None, group_account = None,
            owner_sid = None, owner_account = None\<rparr>"
proof -
  have "snd (SDDL_init Get d s (Some ''service'')) ''RP'' = Some ''Start''"
    by (simp add: SDDL_init_table service_assignments_def)
  moreover have "snd (SDDL_init Get d s None) = d"
    by (simp add: SDDL_init_table)
  moreover have "fst (SDDL_init Get ACCESS ''D:(A;;RP;;;BU)'' None) =
       Inr \<lparr>target = None, sddl_string = ''D:(A;;RP;;;BU)'', sddl_type = Some ''DACL'',
            acl = [\<lparr>ace_string = ''A;;RP;;;BU'', flags = [], perms = [''DS_READ_PROP''],
                    ace_type = ''ACCESS_ALLOWED'', object_type = [], inherited_type = [],
                    trustee = Some ''Users''\<rparr>],
            group_sid = None, group_account = None,
            owner_sid = None, owner_account = None\<rparr>"
    by code_simp
  moreover have "fst (SDDL_init Get
          (snd (SDDL_init Get ACCESS ''D:(A;;RP;;;BU)'' (Some ''service'')))
          ''D:(A;;RP;;;BU)'' None) =
       Inr \<lparr>target = None, sddl_string = ''D:(A;;RP;;;BU)'', sddl_type = Some ''DACL'',
            acl = [\<lparr>ace_string = ''A;;RP;;;BU'', flags = [], perms = [''Start''],
                    ace_type = ''ACCESS_ALLOWED'', object_type = [], inherited_type = [],
                    trustee = Some ''Users''\<rparr>],
            group_sid = None, group_account = None,
            owner_sid = None, owner_account = None\<rparr>"
    by code_simp
  ultimately show ?thesis by blast
qed

text \<open>
  C8. The entry \<^verbatim>\<open>(A;;RP;;;BU)\<close> reaches \<^verbatim>\<open>ACE\<close> as \<^verbatim>\<open>A;;RP;;;BU\<close>, the
  group that \<^verbatim>\<open>re_perms\<close> finds in it. With the table of a call whose target is
  \<^verbatim>\<open>'service'\<close> its permission is \<^verbatim>\<open>Start\<close>; with the table as loaded it is
  \<^verbatim>\<open>DS_READ_PROP\<close>. So the descriptor \<^verbatim>\<open>D:(A;;RP;;;BU)\<close> constructed with that
  target has one entry, whose permission is \<^verbatim>\<open>Start\<close>. The table such a call uses is
  the one it found with thirteen distinct codes assigned their service names: each of the
  thirteen has its service name, no other code changes, and on the table as loaded each
  of the thirteen does change.
\<close>

theorem service_entry_RP_is_Start:
  "re_findall re_perms ''(A;;RP;;;BU)'' = [''A;;RP;;;BU'']
   \<and> ACE_init Get (snd (SDDL_init Get ACCESS s (Some ''service''))) ''A;;RP;;;BU'' =
       Inr \<lparr>ace_string = ''A;;RP;;;BU'', flags = [], perms = [''Start''],
            ace_type = ''ACCESS_ALLOWED'', object_type = [], inherited_type = [],
            trustee = Some ''Users''\<rparr>
   \<and> ACE_init Get ACCESS ''A;;RP;;;BU'' =
       Inr \<lparr>ace_string = ''A;;RP;;;BU'', flags = [], perms = [''DS_READ_PROP''],
            ace_type = ''ACCESS_ALLOWED'', object_type = [], inherited_type = [],
            trustee = Some ''Users''\<rparr>
   \<and> fst (SDDL_init Get ACCESS ''D:(A;;RP;;;BU)'' (Some ''service'')) =
       Inr \<lparr>target = Some ''service'', sddl_string = ''D:(A;;RP;;;BU)'',
            sddl_type = Some ''DACL'',
            acl = [\<lparr>ace_string = ''A;;RP;;;BU'', flags = [], perms = [''Start''],
                    ace_type = ''ACCESS_ALLOWED'', object_type = [], inherited_type = [],
                    trustee = Some ''Users''\<rparr>],
            group_sid = None, group_account = None,
            owner_sid = None, owner_account = None\<rparr>
   \<and> snd (SDDL_init Get d s (Some ''service'')) = assign_all d service_assignments
   \<and> length service_assignments = 13
   \<and> distinct (map fst service_assignments)
   \<and> map (assign_all d service_assignments) (map fst service_assignments) =
        map (Some \<circ> snd) service_assignments
   \<and> {k. assign_all d service_assignments k \<noteq> d k} \<subseteq> set (map fst service_assignments)
   \<and> {k. assign_all ACCESS service_assignments k \<noteq> ACCESS k} =
        set (map fst service_assignments)"
proof -
  have "re_findall re_perms ''(A;;RP;;;BU)'' = [''A;;RP;;;BU'']"
    by code_simp
  moreover have "ACE_init Get (assign_all ACCESS service_assignments) ''A;;RP;;;BU'' =
       Inr \<lparr>ace_string = ''A;;RP;;;BU'', flags = [], perms = [''Start''],
            ace_type = ''ACCESS_ALLOWED'', object_type = [], inherited_type = [],
            trustee = Some ''Users''\<rparr>"
    by code_simp
  then have "ACE_init Get (snd (SDDL_init Get ACCESS s (Some ''service''))) ''A;;RP;;;BU'' =
       Inr \<lparr>ace_string = ''A;;RP;;;BU'', flags = [], perms = [''Start''],
            ace_type = ''ACCESS_ALLOWED'', object_type = [], inherited_type = [],
            trustee = Some ''Users''\<rparr>"
    by (simp add: SDDL_init_table)
  moreover have "ACE_init Get ACCESS ''A;;RP;;;BU'' =
       Inr \<lparr>ace_string = ''A;;RP;;;BU'', flags = [], perms = [''DS_READ_PROP''],
            ace_type = ''ACCESS_ALLOWED'', object_type = [], inherited_type = [],
            trustee = Some ''Users''\<rparr>"
    by code_simp
  moreover have "fst (SDDL_init Get ACCESS ''D:(A;;RP;;;BU)'' (Some ''service'')) =
       Inr \<lparr>target = Some ''service'', sddl_string = ''D:(A;;RP;;;BU)'',
            sddl_type = Some ''DACL'',
            acl = [\<lparr>ace_string = ''A;;RP;;;BU'', flags = [], perms = [''Start''],
                    ace_type = ''ACCESS_ALLOWED'', object_type = [], inherited_type = [],
                    trustee = Some ''Users''\<rparr>],
            group_sid = None, group_account = None,
            owner_sid = None, owner_account = None\<rparr>"
    by code_simp
  moreover have "snd (SDDL_init Get d s (Some ''service'')) = assign_all d service_assignments"
    by (simp add: SDDL_init_table)
  moreover have "length service_assignments = 13"
    by (simp add: service_assignments_def)
  moreover have "distinct (map fst service_assignments)"
    by code_simp
  moreover have "{k. assign_all ACCESS service_assignments k \<noteq> ACCESS k} =
        set (map fst service_assignments)"
    using assign_all_changes [of ACCESS service_assignments] service_changes_ACCESS
    unfolding list_all_iff by blast
  ultimately show ?thesis
    using service_names [of d] assign_all_changes [of d service_assignments] by blast
qed

end
